theory Spec2Isabelle
  imports Main
begin

section \<open>The login handler of backend/app.py\<close>

text \<open>
  The repository is one Flask route, \<^verbatim>\<open>POST /api/login\<close>:
  \<^verbatim>\<open>
  def login():
      creds = request.json
      cur = mysql.connection.cursor()
      cur.execute("SELECT * FROM users WHERE username = %s AND password = %s",
                 (creds['username'], creds['password']))
      user = cur.fetchone()
      cur.close()
      if user:
          return jsonify({'id': user[0], 'username': user[1],
                          'role': user[3], 'assignedCity': user[4]}), 200
      return jsonify({}), 401
  \<close>
  The handler is embedded as a function from the request body and the state of the
  store to the outcome (a response, or the exception that escapes) and the state the
  store is left in. The store is the external collaborator: it is modelled by the rows
  of table \<^verbatim>\<open>users\<close>, the cursors that are open on the connection, and the
  statements the connection has executed.

  Scope of the model. The request body is a JSON object whose values are strings (the
  types the operation \<^verbatim>\<open>verify(username: string, password: string)\<close> has); bodies of
  another shape are not represented. The connection is taken to be established: a store
  that cannot be reached is not represented. The body of a response is the dictionary
  handed to \<^verbatim>\<open>jsonify\<close>, in the order the source writes its keys; the order in which
  the framework serialises them is not represented.
\<close>

subsection \<open>Python values and exceptions\<close>

datatype pyval = PNone | PInt int | PStr string

type_synonym pytuple = "pyval list"

type_synonym pydict = "(string \<times> pyval) list"

datatype error = KeyError string | IndexError | ProgrammingError

text \<open>\<^verbatim>\<open>creds[k]\<close> on a dict: the value, or KeyError with the key.\<close>

definition getitem :: "(string \<rightharpoonup> string) \<Rightarrow> string \<Rightarrow> error + string" where
  "getitem d k = (case d k of None \<Rightarrow> Inl (KeyError k) | Some v \<Rightarrow> Inr v)"

text \<open>\<^verbatim>\<open>user[i]\<close> on a tuple, for the non-negative literal indices the source uses.\<close>

definition tuple_get :: "pytuple \<Rightarrow> nat \<Rightarrow> error + pyval" where
  "tuple_get t i = (if i < length t then Inr (t ! i) else Inl IndexError)"

subsection \<open>The store\<close>

text \<open>
  Modelled from the spec: the declaration of table \<^verbatim>\<open>users\<close> is not in the
  repository. The spec gives it the columns id, username, password, role and
  assignedCity ("at least" these, so further columns may follow), and the handler reads
  them at positions 0, 1, 2, 3, 4 of a fetched row. username and password are text
  columns; id, role and assignedCity hold any value a column can deliver.
\<close>

record user_row =
  uid :: pyval
  username :: string
  password :: string
  role :: pyval
  assignedCity :: pyval
  other_columns :: "pyval list"

text \<open>The tuple \<^verbatim>\<open>SELECT *\<close> yields for a row: every column, in declaration order.\<close>

definition as_tuple :: "user_row \<Rightarrow> pytuple" where
  "as_tuple r =
     [uid r, PStr (username r), PStr (password r), role r, assignedCity r] @ other_columns r"

text \<open>
  The state of the store: the rows of \<^verbatim>\<open>users\<close> in the order in which a query
  returns them, the open cursors (each with the rows it has still to deliver), the
  identifier the next cursor gets, and the statements executed so far, each with its
  text and its bound parameters.
\<close>

record store =
  users :: "user_row list"
  cursors :: "nat \<rightharpoonup> pytuple list"
  next_cursor :: nat
  executed :: "(string \<times> string list) list"

definition login_sql :: string where
  "login_sql = ''SELECT * FROM users WHERE username = %s AND password = %s''"

text \<open>
  Modelled from the spec: how the store evaluates the statement is not in the repository
  (it is the database engine's, with the collation of the table declaration). The spec
  has it select the records whose username and password fields both equal the supplied
  values, by literal equality, through a parameterized interface: the two placeholders
  of the statement are bound by position to the two parameters, which are values beside
  the text and are never read as query text. The rows come in the order of the store.
  Any other statement, or another number of parameters, is a ProgrammingError.
\<close>

fun run_query :: "string \<Rightarrow> string list \<Rightarrow> user_row list \<Rightarrow> error + pytuple list" where
  "run_query q [u, p] rs =
     (if q = login_sql
      then Inr (map as_tuple (filter (\<lambda>r. username r = u \<and> password r = p) rs))
      else Inl ProgrammingError)"
| "run_query q args rs = Inl ProgrammingError"

text \<open>
  The operations of the client library on a cursor, as the handler uses them.
  \<^verbatim>\<open>mysql.connection.cursor()\<close>: a fresh cursor with nothing to deliver.
\<close>

definition cursor :: "store \<Rightarrow> nat \<times> store" where
  "cursor s =
     (next_cursor s,
      s\<lparr>cursors := (cursors s)(next_cursor s \<mapsto> []), next_cursor := Suc (next_cursor s)\<rparr>)"

text \<open>\<^verbatim>\<open>cur.execute(q, args)\<close>: the result set goes into the cursor.\<close>

definition execute :: "nat \<Rightarrow> string \<Rightarrow> string list \<Rightarrow> store \<Rightarrow> error + store" where
  "execute c q args s =
     (case cursors s c of
        None \<Rightarrow> Inl ProgrammingError
      | Some old \<Rightarrow>
          (case run_query q args (users s) of
             Inl e \<Rightarrow> Inl e
           | Inr res \<Rightarrow>
               Inr (s\<lparr>cursors := (cursors s)(c \<mapsto> res),
                      executed := executed s @ [(q, args)]\<rparr>)))"

text \<open>\<^verbatim>\<open>cur.fetchone()\<close>: the next row of the result set, or None when it is exhausted.\<close>

definition fetchone :: "nat \<Rightarrow> store \<Rightarrow> error + (pytuple option \<times> store)" where
  "fetchone c s =
     (case cursors s c of
        None \<Rightarrow> Inl ProgrammingError
      | Some [] \<Rightarrow> Inr (None, s)
      | Some (t # ts) \<Rightarrow> Inr (Some t, s\<lparr>cursors := (cursors s)(c \<mapsto> ts)\<rparr>))"

text \<open>\<^verbatim>\<open>cur.close()\<close>: the cursor is released.\<close>

definition close :: "nat \<Rightarrow> store \<Rightarrow> store" where
  "close c s = s\<lparr>cursors := (cursors s)(c := None)\<rparr>"

text \<open>A cursor is open while the connection holds it.\<close>

definition is_open :: "nat \<Rightarrow> store \<Rightarrow> bool" where
  "is_open c s = (cursors s c \<noteq> None)"

subsection \<open>The handler\<close>

record response =
  body :: pydict
  status :: nat

text \<open>
  The dict literal of the success branch: the four subscripts are evaluated in the order
  written, and the first one out of range raises.
\<close>

definition profile_dict :: "pytuple \<Rightarrow> error + pydict" where
  "profile_dict user =
     (case tuple_get user 0 of Inl e \<Rightarrow> Inl e | Inr v0 \<Rightarrow>
     (case tuple_get user 1 of Inl e \<Rightarrow> Inl e | Inr v1 \<Rightarrow>
     (case tuple_get user 3 of Inl e \<Rightarrow> Inl e | Inr v3 \<Rightarrow>
     (case tuple_get user 4 of Inl e \<Rightarrow> Inl e | Inr v4 \<Rightarrow>
        Inr [(''id'', v0), (''username'', v1), (''role'', v3), (''assignedCity'', v4)]))))"

text \<open>\<^verbatim>\<open>if user:\<close> holds for a tuple that is not empty, and fails for None.\<close>

fun truthy :: "pytuple option \<Rightarrow> bool" where
  "truthy None = False"
| "truthy (Some t) = (t \<noteq> [])"

text \<open>
  The handler. The cursor is acquired before the parameter tuple is built, so a missing
  key raises with the cursor open; an exception leaves the store in the state it had
  where it was raised.
\<close>

definition login :: "(string \<rightharpoonup> string) \<Rightarrow> store \<Rightarrow> (error + response) \<times> store" where
  "login creds s0 =
     (case cursor s0 of (cur, s1) \<Rightarrow>
     (case getitem creds ''username'' of Inl e \<Rightarrow> (Inl e, s1) | Inr u \<Rightarrow>
     (case getitem creds ''password'' of Inl e \<Rightarrow> (Inl e, s1) | Inr p \<Rightarrow>
     (case execute cur login_sql [u, p] s1 of Inl e \<Rightarrow> (Inl e, s1) | Inr s2 \<Rightarrow>
     (case fetchone cur s2 of Inl e \<Rightarrow> (Inl e, s2) | Inr (user, s3) \<Rightarrow>
     (case close cur s3 of s4 \<Rightarrow>
        if truthy user
        then (case user of
                None \<Rightarrow> (Inr \<lparr>body = [], status = 401\<rparr>, s4)
              | Some t \<Rightarrow>
                  (case profile_dict t of
                     Inl e \<Rightarrow> (Inl e, s4)
                   | Inr d \<Rightarrow> (Inr \<lparr>body = d, status = 200\<rparr>, s4)))
        else (Inr \<lparr>body = [], status = 401\<rparr>, s4)))))))"

subsection \<open>What the handler computes\<close>

text \<open>The rows that match a pair of credentials, and the profile the handler builds of a row.\<close>

definition matching :: "string \<Rightarrow> string \<Rightarrow> user_row list \<Rightarrow> user_row list" where
  "matching u p rs = filter (\<lambda>r. username r = u \<and> password r = p) rs"

definition profile :: "user_row \<Rightarrow> pydict" where
  "profile r =
     [(''id'', uid r), (''username'', PStr (username r)),
      (''role'', role r), (''assignedCity'', assignedCity r)]"

definition ok :: "user_row \<Rightarrow> response" where
  "ok r = \<lparr>body = profile r, status = 200\<rparr>"

definition unauthorized :: response where
  "unauthorized = \<lparr>body = [], status = 401\<rparr>"

subsection \<open>Concrete stores and requests\<close>

text \<open>
  The record of the spec's scenario, a second account, a second record with the
  credentials of the first (a store that breaks the uniqueness of username), and a
  request body with both keys.
\<close>

definition alice :: user_row where
  "alice = \<lparr>uid = PInt 1, username = ''alice'', password = ''secret'',
             role = PStr ''admin'', assignedCity = PStr ''Lisbon'', other_columns = []\<rparr>"

definition scenario_store :: store where
  "scenario_store = \<lparr>users = [alice], cursors = Map.empty, next_cursor = 0, executed = []\<rparr>"

definition bob :: user_row where
  "bob = \<lparr>uid = PInt 2, username = ''bob'', password = ''hunter2'',
           role = PStr ''operator'', assignedCity = PStr ''Porto'', other_columns = [PNone]\<rparr>"

definition two_users :: store where
  "two_users = \<lparr>users = [alice, bob], cursors = Map.empty, next_cursor = 0, executed = []\<rparr>"

definition alice_again :: user_row where
  "alice_again = \<lparr>uid = PInt 7, username = ''alice'', password = ''secret'',
                   role = PStr ''guest'', assignedCity = PStr ''Faro'', other_columns = []\<rparr>"

definition duplicates :: "user_row list \<Rightarrow> store" where
  "duplicates rs = \<lparr>users = rs, cursors = Map.empty, next_cursor = 0, executed = []\<rparr>"

definition request :: "string \<Rightarrow> string \<Rightarrow> (string \<rightharpoonup> string)" where
  "request u p = [''username'' \<mapsto> u, ''password'' \<mapsto> p]"

subsection \<open>The outcome and the final state in closed form\<close>

lemma profile_dict_as_tuple: "profile_dict (as_tuple r) = Inr (profile r)"
  by (simp add: profile_dict_def tuple_get_def as_tuple_def profile_def)

lemma as_tuple_not_empty: "as_tuple r \<noteq> []"
  by (simp add: as_tuple_def)

lemma login_response:
  "fst (login creds s) =
     (case creds ''username'' of
        None \<Rightarrow> Inl (KeyError ''username'')
      | Some u \<Rightarrow>
          (case creds ''password'' of
             None \<Rightarrow> Inl (KeyError ''password'')
           | Some p \<Rightarrow>
               (case matching u p (users s) of
                  [] \<Rightarrow> Inr unauthorized
                | r # rest \<Rightarrow> Inr (ok r))))"
  by (simp add: login_def cursor_def getitem_def execute_def fetchone_def close_def
      matching_def ok_def unauthorized_def profile_dict_as_tuple as_tuple_not_empty
      split: option.split list.split)

lemma login_store:
  "snd (login creds s) =
     (case creds ''username'' of
        None \<Rightarrow> s\<lparr>cursors := (cursors s)(next_cursor s \<mapsto> []),
                   next_cursor := Suc (next_cursor s)\<rparr>
      | Some u \<Rightarrow>
          (case creds ''password'' of
             None \<Rightarrow> s\<lparr>cursors := (cursors s)(next_cursor s \<mapsto> []),
                        next_cursor := Suc (next_cursor s)\<rparr>
           | Some p \<Rightarrow>
               s\<lparr>cursors := (cursors s)(next_cursor s := None),
                  next_cursor := Suc (next_cursor s),
                  executed := executed s @ [(login_sql, [u, p])]\<rparr>))"
  by (auto simp add: login_def cursor_def getitem_def execute_def fetchone_def close_def
      split: option.split list.split sum.split)

lemma matching_unique:
  "distinct (map username rs) \<Longrightarrow> r \<in> set rs \<Longrightarrow>
   matching (username r) (password r) rs = [r]"
proof (induction rs)
  case Nil
  then show ?case by simp
next
  case (Cons x xs)
  show ?case
  proof (cases "x = r")
    case True
    with Cons.prems have "username r \<notin> username ` set xs" by simp
    then have "\<forall>y \<in> set xs. username y \<noteq> username r" by (metis imageI)
    then have "matching (username r) (password r) xs = []"
      by (simp add: matching_def filter_empty_conv)
    with True show ?thesis by (simp add: matching_def)
  next
    case False
    with Cons.prems have "r \<in> set xs" and "username x \<noteq> username r" by auto
    with Cons show ?thesis by (simp add: matching_def)
  qed
qed

lemma matching_set: "set (matching u p rs) = {r \<in> set rs. username r = u \<and> password r = p}"
  by (auto simp: matching_def)

lemma matching_first_in:
  "matching u p rs = r # rest \<Longrightarrow> r \<in> set rs \<and> username r = u \<and> password r = p"
  using matching_set [of u p rs] by auto

lemma matching_empty:
  "(matching u p rs = []) = (\<forall>r \<in> set rs. \<not> (username r = u \<and> password r = p))"
  by (auto simp: matching_def filter_empty_conv)

subsection \<open>Successful login\<close>

text \<open>
  Claim C1. When the store holds a record with username u and password p (usernames being
  unique, the invariant of the store), a request carrying u and p is answered with status
  200 and a body of exactly the four fields id, username, role and assignedCity, taken
  from columns 0, 1, 3 and 4 of that record. The scenario of the spec (alice, secret) is
  the witness.
\<close>

theorem login_success:
  assumes "creds ''username'' = Some u" and "creds ''password'' = Some p"
    and "r \<in> set (users s)" and "username r = u" and "password r = p"
    and "distinct (map username (users s))"
  shows "fst (login creds s) =
           Inr \<lparr>body = [(''id'', as_tuple r ! 0), (''username'', as_tuple r ! 1),
                         (''role'', as_tuple r ! 3), (''assignedCity'', as_tuple r ! 4)],
                 status = 200\<rparr>"
proof -
  from assms have "matching u p (users s) = [r]"
    using matching_unique [of "users s" r] by simp
  with assms(1,2) show ?thesis
    by (simp add: login_response ok_def profile_def as_tuple_def)
qed

theorem login_success_witness:
  "fst (login (request ''alice'' ''secret'') scenario_store) =
     Inr \<lparr>body = [(''id'', PInt 1), (''username'', PStr ''alice''),
                   (''role'', PStr ''admin''), (''assignedCity'', PStr ''Lisbon'')],
           status = 200\<rparr>"
proof -
  have keys: "request ''alice'' ''secret'' ''username'' = Some ''alice''"
    "request ''alice'' ''secret'' ''password'' = Some ''secret''"
    by (simp_all add: request_def)
  have row: "alice \<in> set (users scenario_store)" "username alice = ''alice''"
    "password alice = ''secret''" "distinct (map username (users scenario_store))"
    by (simp_all add: scenario_store_def alice_def)
  show ?thesis
    using login_success [OF keys row] by (simp add: as_tuple_def alice_def)
qed

subsection \<open>Failed login\<close>

text \<open>
  Claim C2. When both keys are present and no stored record has that username and that
  password, the handler answers with status 401, and the body is the empty JSON object
  (the empty dict handed to jsonify).
\<close>

theorem login_failure:
  assumes "creds ''username'' = Some u" and "creds ''password'' = Some p"
    and "\<forall>r \<in> set (users s). \<not> (username r = u \<and> password r = p)"
  shows "fst (login creds s) = Inr \<lparr>body = [], status = 401\<rparr>"
proof -
  from assms(3) have "matching u p (users s) = []"
    by (simp add: matching_empty)
  with assms(1,2) show ?thesis
    by (simp add: login_response unauthorized_def)
qed

theorem login_failure_witness:
  "fst (login (request ''alice'' ''wrong'') scenario_store) = Inr \<lparr>body = [], status = 401\<rparr>
   \<and> fst (login (request ''bob'' ''x'') scenario_store) = Inr \<lparr>body = [], status = 401\<rparr>"
proof -
  have wrong: "\<forall>r \<in> set (users scenario_store). \<not> (username r = ''alice'' \<and> password r = ''wrong'')"
    by (simp add: scenario_store_def alice_def)
  have bob: "\<forall>r \<in> set (users scenario_store). \<not> (username r = ''bob'' \<and> password r = ''x'')"
    by (simp add: scenario_store_def alice_def)
  have "fst (login (request ''alice'' ''wrong'') scenario_store) = Inr \<lparr>body = [], status = 401\<rparr>"
    using login_failure [OF _ _ wrong, of "request ''alice'' ''wrong''"]
    by (simp add: request_def)
  moreover
  have "fst (login (request ''bob'' ''x'') scenario_store) = Inr \<lparr>body = [], status = 401\<rparr>"
    using login_failure [OF _ _ bob, of "request ''bob'' ''x''"]
    by (simp add: request_def)
  ultimately show ?thesis by simp
qed

subsection \<open>No cross-account leakage\<close>

lemma distinct_username_eq:
  "distinct (map username rs) \<Longrightarrow> a \<in> set rs \<Longrightarrow> b \<in> set rs \<Longrightarrow>
   username a = username b \<Longrightarrow> a = b"
  by (meson distinct_map inj_onD)

lemma login_ok_matches:
  assumes "creds ''username'' = Some u" and "creds ''password'' = Some p"
    and "fst (login creds s) = Inr resp" and "status resp = 200"
  shows "\<exists>r \<in> set (users s). username r = u \<and> password r = p \<and> resp = ok r"
proof (cases "matching u p (users s)")
  case Nil
  with assms show ?thesis
    by (auto simp: login_response unauthorized_def)
next
  case (Cons r rest)
  with assms(1-3) have "resp = ok r"
    by (simp add: login_response)
  with matching_first_in [OF Cons] show ?thesis by blast
qed

text \<open>
  Claim C3. With unique usernames and two distinct records a and b, a request with the
  credentials of a is answered with the profile of a, which differs from the profile of
  b; and any 200 answer is the profile of a stored record whose username and password
  are the supplied ones.
\<close>

theorem no_cross_account:
  assumes "distinct (map username (users s))"
    and "a \<in> set (users s)" and "b \<in> set (users s)" and "a \<noteq> b"
    and "creds ''username'' = Some (username a)" and "creds ''password'' = Some (password a)"
  shows "fst (login creds s) = Inr (ok a) \<and> body (ok a) \<noteq> body (ok b) \<and>
         (\<forall>resp. fst (login creds s) = Inr resp \<and> status resp = 200 \<longrightarrow>
            (\<exists>r \<in> set (users s). username r = username a \<and> password r = password a \<and>
               resp = ok r))"
proof -
  have "matching (username a) (password a) (users s) = [a]"
    using assms(1,2) by (rule matching_unique)
  with assms(5,6) have own: "fst (login creds s) = Inr (ok a)"
    by (simp add: login_response)
  from assms(1-4) have "username a \<noteq> username b"
    using distinct_username_eq by blast
  then have other: "body (ok a) \<noteq> body (ok b)"
    by (simp add: ok_def profile_def)
  from assms(5,6) have "\<forall>resp. fst (login creds s) = Inr resp \<and> status resp = 200 \<longrightarrow>
      (\<exists>r \<in> set (users s). username r = username a \<and> password r = password a \<and> resp = ok r)"
    using login_ok_matches by blast
  with own other show ?thesis by blast
qed

theorem no_cross_account_witness:
  "fst (login (request ''bob'' ''hunter2'') two_users) = Inr (ok bob) \<and>
   body (ok bob) \<noteq> body (ok alice)"
proof -
  have inv: "distinct (map username (users two_users))"
    by (simp add: two_users_def alice_def bob_def)
  have rows: "bob \<in> set (users two_users)" "alice \<in> set (users two_users)" "bob \<noteq> alice"
    by (simp_all add: two_users_def alice_def bob_def)
  have keys: "request ''bob'' ''hunter2'' ''username'' = Some (username bob)"
    "request ''bob'' ''hunter2'' ''password'' = Some (password bob)"
    by (simp_all add: request_def bob_def)
  show ?thesis
    using no_cross_account [OF inv rows keys] by simp
qed

subsection \<open>Missing keys\<close>

text \<open>
  Claim C4. A body that lacks the key username or the key password makes the handler
  raise KeyError for the first missing key (username is read first); no response, of any
  status, is returned.
\<close>

theorem missing_key_faults:
  assumes "creds ''username'' = None \<or> creds ''password'' = None"
  shows "fst (login creds s) =
           Inl (KeyError (if creds ''username'' = None then ''username'' else ''password''))
         \<and> (\<forall>resp. fst (login creds s) \<noteq> Inr resp)"
  using assms by (auto simp: login_response split: option.splits)

theorem missing_key_faults_witness:
  "fst (login [''username'' \<mapsto> ''alice''] scenario_store) = Inl (KeyError ''password'') \<and>
   fst (login [''password'' \<mapsto> ''secret''] scenario_store) = Inl (KeyError ''username'') \<and>
   fst (login Map.empty scenario_store) = Inl (KeyError ''username'')"
  using missing_key_faults [of "[''username'' \<mapsto> ''alice'']" scenario_store]
    missing_key_faults [of "[''password'' \<mapsto> ''secret'']" scenario_store]
    missing_key_faults [of Map.empty scenario_store]
  by simp

subsection \<open>Release of the cursor\<close>

text \<open>
  Claim C5, as stated, fails: the source has no exception handler and no scoped block
  around the cursor, so when the key access raises, \<^verbatim>\<open>cur.close()\<close> is never
  reached. With a body that lacks the key password, the handler exits with KeyError and
  the cursor it acquired is still open.
\<close>

theorem cursor_left_open_counterexample:
  "fst (login [''username'' \<mapsto> ''alice''] scenario_store) = Inl (KeyError ''password'') \<and>
   is_open (fst (cursor scenario_store))
     (snd (login [''username'' \<mapsto> ''alice''] scenario_store))"
  by (simp add: is_open_def login_response login_store cursor_def scenario_store_def)

text \<open>
  Claim C5, amended. Whenever the handler returns a response (200 or 401), the cursor it
  acquired has been released, and every other cursor of the connection is as it was.
\<close>

theorem cursor_released_on_response:
  assumes "fst (login creds s) = Inr resp"
  shows "\<not> is_open (fst (cursor s)) (snd (login creds s)) \<and>
         (\<forall>c. c \<noteq> fst (cursor s) \<longrightarrow> is_open c (snd (login creds s)) = is_open c s)"
proof -
  from assms obtain u p where "creds ''username'' = Some u" and "creds ''password'' = Some p"
    by (auto simp: login_response split: option.splits)
  then show ?thesis
    by (simp add: login_store is_open_def cursor_def)
qed

theorem cursor_released_on_response_witness:
  "\<not> is_open 0 (snd (login (request ''alice'' ''secret'') scenario_store)) \<and>
   \<not> is_open 0 (snd (login (request ''alice'' ''wrong'') scenario_store))"
proof -
  have a: "fst (login (request ''alice'' ''secret'') scenario_store) = Inr (ok alice)"
    by (simp add: login_response request_def scenario_store_def matching_def alice_def)
  have b: "fst (login (request ''alice'' ''wrong'') scenario_store) = Inr unauthorized"
    by (simp add: login_response request_def scenario_store_def matching_def alice_def)
  show ?thesis
    using cursor_released_on_response [OF a] cursor_released_on_response [OF b]
    by (simp add: cursor_def scenario_store_def)
qed

subsection \<open>Literal comparison through bound parameters\<close>

text \<open>
  Claim C6. With both keys present, the handler answers 200 exactly when some stored
  record has a username and a password equal, as strings, to the supplied ones, whatever
  characters they contain; the statement executed is the constant text, and the supplied
  values go beside it unchanged, as its two parameters.
\<close>

theorem literal_match:
  assumes "creds ''username'' = Some u" and "creds ''password'' = Some p"
  shows "((\<exists>d. fst (login creds s) = Inr \<lparr>body = d, status = 200\<rparr>) \<longleftrightarrow>
            (\<exists>r \<in> set (users s). username r = u \<and> password r = p)) \<and>
         executed (snd (login creds s)) = executed s @ [(login_sql, [u, p])]"
proof -
  have "(\<exists>d. fst (login creds s) = Inr \<lparr>body = d, status = 200\<rparr>) \<longleftrightarrow>
          matching u p (users s) \<noteq> []"
    using assms by (simp add: login_response ok_def unauthorized_def split: list.split)
  moreover have "matching u p (users s) \<noteq> [] \<longleftrightarrow>
      (\<exists>r \<in> set (users s). username r = u \<and> password r = p)"
    by (simp add: matching_empty)
  moreover have "executed (snd (login creds s)) = executed s @ [(login_sql, [u, p])]"
    using assms by (simp add: login_store)
  ultimately show ?thesis by simp
qed

theorem literal_match_witness:
  "fst (login (request ''alice'' (''x'' @ [CHR 0x27] @ '' OR 1=1 -- '')) scenario_store)
     \<noteq> Inr (ok alice) \<and>
   fst (login (request ''%'' ''%'') scenario_store) \<noteq> Inr (ok alice) \<and>
   executed (snd (login (request ''%'' ''%'') scenario_store)) = [(login_sql, [''%'', ''%''])]"
proof -
  have k1: "request ''alice'' (''x'' @ [CHR 0x27] @ '' OR 1=1 -- '') ''username'' = Some ''alice''"
    "request ''alice'' (''x'' @ [CHR 0x27] @ '' OR 1=1 -- '') ''password'' =
       Some (''x'' @ [CHR 0x27] @ '' OR 1=1 -- '')"
    by (simp_all add: request_def)
  have k2: "request ''%'' ''%'' ''username'' = Some ''%''" "request ''%'' ''%'' ''password'' = Some ''%''"
    by (simp_all add: request_def)
  have n1: "\<not> (\<exists>r \<in> set (users scenario_store).
      username r = ''alice'' \<and> password r = ''x'' @ [CHR 0x27] @ '' OR 1=1 -- '')"
    by (simp add: scenario_store_def alice_def)
  have n2: "\<not> (\<exists>r \<in> set (users scenario_store). username r = ''%'' \<and> password r = ''%'')"
    by (simp add: scenario_store_def alice_def)
  show ?thesis
    using literal_match [OF k1, of scenario_store] literal_match [OF k2, of scenario_store] n1 n2
    by (auto simp: ok_def scenario_store_def)
qed

subsection \<open>Several matching records\<close>

text \<open>
  Claim C7. When more than one stored record matches, the answer is 200 with the profile
  of the first matching row in the order in which the store returns rows; the handler
  asks for no order. The witness runs the same two records in both orders and gets two
  different profiles.
\<close>

theorem first_fetched_row_wins:
  assumes "creds ''username'' = Some u" and "creds ''password'' = Some p"
    and "matching u p (users s) = r # r' # rest"
  shows "fst (login creds s) = Inr (ok r)"
  using assms by (simp add: login_response)

theorem first_fetched_row_wins_witness:
  "fst (login (request ''alice'' ''secret'') (duplicates [alice, alice_again])) = Inr (ok alice) \<and>
   fst (login (request ''alice'' ''secret'') (duplicates [alice_again, alice])) = Inr (ok alice_again) \<and>
   ok alice \<noteq> ok alice_again"
proof -
  have keys: "request ''alice'' ''secret'' ''username'' = Some ''alice''"
    "request ''alice'' ''secret'' ''password'' = Some ''secret''"
    by (simp_all add: request_def)
  have m1: "matching ''alice'' ''secret'' (users (duplicates [alice, alice_again])) =
      alice # alice_again # []"
    by (simp add: matching_def duplicates_def alice_def alice_again_def)
  have m2: "matching ''alice'' ''secret'' (users (duplicates [alice_again, alice])) =
      alice_again # alice # []"
    by (simp add: matching_def duplicates_def alice_def alice_again_def)
  have "ok alice \<noteq> ok alice_again"
    by (simp add: ok_def profile_def alice_def alice_again_def)
  with first_fetched_row_wins [OF keys m1] first_fetched_row_wins [OF keys m2]
  show ?thesis by simp
qed

subsection \<open>The handler only reads\<close>

text \<open>
  Claim C8. Every invocation leaves the rows of the store as they were. When a response
  is returned (200 or 401), the handler has executed exactly one statement, the SELECT;
  when a key is missing it has executed none.
\<close>

theorem store_unchanged:
  "users (snd (login creds s)) = users s \<and>
   (\<forall>resp. fst (login creds s) = Inr resp \<longrightarrow>
      (\<exists>u p. executed (snd (login creds s)) = executed s @ [(login_sql, [u, p])])) \<and>
   (\<forall>e. fst (login creds s) = Inl e \<longrightarrow> executed (snd (login creds s)) = executed s) \<and>
   take 7 login_sql = ''SELECT ''"
  by (auto simp: login_store login_response login_sql_def split: option.splits list.splits)

theorem store_unchanged_witness:
  "users (snd (login (request ''alice'' ''secret'') scenario_store)) = [alice] \<and>
   executed (snd (login (request ''alice'' ''secret'') scenario_store)) =
     [(login_sql, [''alice'', ''secret''])] \<and>
   users (snd (login (request ''alice'' ''wrong'') scenario_store)) = [alice] \<and>
   executed (snd (login (request ''alice'' ''wrong'') scenario_store)) =
     [(login_sql, [''alice'', ''wrong''])]"
proof -
  have a: "fst (login (request ''alice'' ''secret'') scenario_store) = Inr (ok alice)"
    by (simp add: login_response request_def scenario_store_def matching_def alice_def)
  have b: "fst (login (request ''alice'' ''wrong'') scenario_store) = Inr unauthorized"
    by (simp add: login_response request_def scenario_store_def matching_def alice_def)
  have "executed (snd (login (request ''alice'' ''secret'') scenario_store)) =
      [(login_sql, [''alice'', ''secret''])]"
    by (simp add: login_store request_def scenario_store_def)
  moreover have "executed (snd (login (request ''alice'' ''wrong'') scenario_store)) =
      [(login_sql, [''alice'', ''wrong''])]"
    by (simp add: login_store request_def scenario_store_def)
  ultimately show ?thesis
    using store_unchanged [of "request ''alice'' ''secret''" scenario_store]
      store_unchanged [of "request ''alice'' ''wrong''" scenario_store] a b
    by (simp add: scenario_store_def)
qed

subsection \<open>The password stays out of the response\<close>

lemma profile_dict_ignores_password: "profile_dict (t[2 := v]) = profile_dict t"
  by (simp add: profile_dict_def tuple_get_def)

text \<open>
  Claim C9. Every response is either 401 with the empty object, or 200 with exactly the
  keys id, username, role, assignedCity built from columns 0, 1, 3, 4 of a stored row;
  the body has no key password, and it is the same whatever column 2 of that row holds.
\<close>

theorem password_not_in_response:
  assumes "fst (login creds s) = Inr resp"
  shows "((status resp = 401 \<and> body resp = []) \<or>
          (status resp = 200 \<and>
           (\<exists>r \<in> set (users s).
              body resp = [(''id'', as_tuple r ! 0), (''username'', as_tuple r ! 1),
                           (''role'', as_tuple r ! 3), (''assignedCity'', as_tuple r ! 4)] \<and>
              (\<forall>v. profile_dict ((as_tuple r)[2 := v]) = Inr (body resp))))) \<and>
         ''password'' \<notin> set (map fst (body resp))"
proof -
  from assms obtain u p where keys: "creds ''username'' = Some u" "creds ''password'' = Some p"
    by (auto simp: login_response split: option.splits)
  show ?thesis
  proof (cases "matching u p (users s)")
    case Nil
    with assms keys have "resp = unauthorized"
      by (simp add: login_response)
    then show ?thesis by (simp add: unauthorized_def)
  next
    case (Cons r rest)
    with assms keys have resp: "resp = ok r"
      by (simp add: login_response)
    from matching_first_in [OF Cons] have "r \<in> set (users s)" by simp
    moreover have "body resp = [(''id'', as_tuple r ! 0), (''username'', as_tuple r ! 1),
        (''role'', as_tuple r ! 3), (''assignedCity'', as_tuple r ! 4)]"
      by (simp add: resp ok_def profile_def as_tuple_def)
    moreover have "\<forall>v. profile_dict ((as_tuple r)[2 := v]) = Inr (body resp)"
      by (simp add: profile_dict_ignores_password profile_dict_as_tuple resp ok_def)
    moreover have "status resp = 200" by (simp add: resp ok_def)
    moreover have "''password'' \<notin> set (map fst (body resp))"
      by (simp add: resp ok_def profile_def)
    ultimately show ?thesis by blast
  qed
qed

theorem password_not_in_response_witness:
  "fst (login (request ''alice'' ''secret'') scenario_store) = Inr (ok alice) \<and>
   body (ok alice) = [(''id'', as_tuple alice ! 0), (''username'', as_tuple alice ! 1),
                      (''role'', as_tuple alice ! 3), (''assignedCity'', as_tuple alice ! 4)] \<and>
   profile_dict ((as_tuple alice)[2 := PStr ''other'']) = Inr (body (ok alice)) \<and>
   ''password'' \<notin> set (map fst (body (ok alice)))"
proof -
  have a: "fst (login (request ''alice'' ''secret'') scenario_store) = Inr (ok alice)"
    by (simp add: login_response request_def scenario_store_def matching_def alice_def)
  have "status (ok alice) = 200" and "users scenario_store = [alice]"
    by (simp_all add: ok_def scenario_store_def)
  with a password_not_in_response [OF a] show ?thesis
    by simp
qed

subsection \<open>Determinism\<close>

text \<open>
  Claim C10. Two requests with the same username and password entries get the same
  outcome (status and body, or the same exception) from a store with the same rows: the
  second invocation run on the state the first one left, or on any state with the same
  rows.
\<close>

theorem login_deterministic:
  assumes "creds' ''username'' = creds ''username''"
    and "creds' ''password'' = creds ''password''"
  shows "fst (login creds' (snd (login creds s))) = fst (login creds s) \<and>
         (users s' = users s \<longrightarrow> fst (login creds' s') = fst (login creds s))"
proof -
  have "users (snd (login creds s)) = users s"
    by (simp add: login_store split: option.split)
  with assms show ?thesis
    by (simp add: login_response split: option.split)
qed

theorem login_deterministic_witness:
  "fst (login (request ''alice'' ''secret'')
          (snd (login (request ''alice'' ''secret'') scenario_store))) =
     fst (login (request ''alice'' ''secret'') scenario_store) \<and>
   fst (login ((request ''alice'' ''secret'')(''remember'' \<mapsto> ''yes'')) scenario_store) =
     fst (login (request ''alice'' ''secret'') scenario_store)"
proof -
  have same: "((request ''alice'' ''secret'')(''remember'' \<mapsto> ''yes'')) ''username'' =
      request ''alice'' ''secret'' ''username''"
    "((request ''alice'' ''secret'')(''remember'' \<mapsto> ''yes'')) ''password'' =
      request ''alice'' ''secret'' ''password''"
    by (simp_all add: request_def)
  have again: "fst (login (request ''alice'' ''secret'')
      (snd (login (request ''alice'' ''secret'') scenario_store))) =
      fst (login (request ''alice'' ''secret'') scenario_store)"
    using login_deterministic [where creds' = "request ''alice'' ''secret''"
        and creds = "request ''alice'' ''secret''" and s = scenario_store and s' = scenario_store]
    by blast
  have extra: "fst (login ((request ''alice'' ''secret'')(''remember'' \<mapsto> ''yes'')) scenario_store) =
      fst (login (request ''alice'' ''secret'') scenario_store)"
    using login_deterministic [OF same, where s = scenario_store and s' = scenario_store]
    by blast
  from again extra show ?thesis by (rule conjI)
qed

end
